theory Spec2Isabelle
  imports Main "HOL-Library.Word" "HOL-Library.AList"
begin

section \<open>The protocol codec, as server.go uses it\<close>

text \<open>
  server.go drives a connection through a reader \<open>c.rd\<close> and a buffered writer
  \<open>c.wr\<close> of package resp, which is not part of the sources. The model keeps what the
  dispatcher observes of them: the unread input as a sequence of tokens, the writer's
  buffer and what has reached the transport.
\<close>

text \<open>
  Modelled from the spec: the errors of the codec. A Go \<open>error\<close> is a value;
  \<open>resp.IsProtocolError\<close> (not in the sources) "classifies decode failures as
  protocol error vs. other I/O errors": the errors of a malformed byte stream on one side,
  end of input, reset, expired deadline and closed connection on the other.
\<close>

datatype error = ProtocolError string | IOError string

fun IsProtocolError :: "error \<Rightarrow> bool" where
  "IsProtocolError (ProtocolError m) = True"
| "IsProtocolError (IOError m) = False"

text \<open>\<open>err.Error()\<close>: the message of an error.\<close>

fun Error :: "error \<Rightarrow> string" where
  "Error (ProtocolError m) = m"
| "Error (IOError m) = m"

text \<open>
  Modelled from the spec: the unread input of a connection. A command on the wire is an array header announcing
  \<open>n\<close> elements followed by \<open>n\<close> bulk strings, the first of them the command's name.
  \<open>Garbage\<close> stands for bytes that are no well-formed element, \<open>Fault\<close> for a read
  that the transport fails (reset, deadline expired). The empty input is the end of the
  stream: the peer has disconnected.
\<close>

datatype token = Hdr nat | Bulk string | Garbage | Fault string

record reader =
  inp :: "token list"
  r_closed :: bool

text \<open>
  Modelled from the spec: the reader of the protocol codec (package resp, not in the
  sources), "a streaming reader that parses one command (name + ordered argument list) at
  a time", whose error "is tagged as protocol error when the byte stream itself is
  malformed, distinct from plain I/O errors".
\<close>

definition next_token :: "reader \<Rightarrow> (error + token) \<times> reader" where
  "next_token r =
     (if r_closed r then (Inl (IOError ''use of closed network connection''), r)
      else case inp r of
        [] \<Rightarrow> (Inl (IOError ''EOF''), r)
      | Fault m # ts \<Rightarrow> (Inl (IOError m), r\<lparr>inp := ts\<rparr>)
      | t # ts \<Rightarrow> (Inr t, r\<lparr>inp := ts\<rparr>))"

definition expect_hdr :: "reader \<Rightarrow> (error + nat) \<times> reader" where
  "expect_hdr r =
     (case next_token r of
        (Inl e, r') \<Rightarrow> (Inl e, r')
      | (Inr (Hdr n), r') \<Rightarrow>
          (if n = 0 then (Inl (ProtocolError ''Protocol error: empty command''), r')
           else (Inr n, r'))
      | (Inr t, r') \<Rightarrow> (Inl (ProtocolError ''Protocol error: expected an array''), r'))"

definition expect_bulk :: "reader \<Rightarrow> (error + string) \<times> reader" where
  "expect_bulk r =
     (case next_token r of
        (Inl e, r') \<Rightarrow> (Inl e, r')
      | (Inr (Bulk b), r') \<Rightarrow> (Inr b, r')
      | (Inr t, r') \<Rightarrow> (Inl (ProtocolError ''Protocol error: expected a bulk string''), r'))"

fun read_bulks :: "nat \<Rightarrow> reader \<Rightarrow> (error + string list) \<times> reader" where
  "read_bulks 0 r = (Inr [], r)"
| "read_bulks (Suc n) r =
     (case expect_bulk r of
        (Inl e, r') \<Rightarrow> (Inl e, r')
      | (Inr b, r') \<Rightarrow>
          (case read_bulks n r' of
             (Inl e, r'') \<Rightarrow> (Inl e, r'')
           | (Inr bs, r'') \<Rightarrow> (Inr (b # bs), r'')))"

fun skip_bulks :: "nat \<Rightarrow> reader \<Rightarrow> error option \<times> reader" where
  "skip_bulks 0 r = (None, r)"
| "skip_bulks (Suc n) r =
     (case expect_bulk r of
        (Inl e, r') \<Rightarrow> (Some e, r')
      | (Inr b, r') \<Rightarrow> skip_bulks n r')"

text \<open>
  Modelled from the spec: \<open>resp.Command\<close> (not in the sources), a fully read
  command, "name + ordered argument list".
\<close>

record command =
  cmd_name :: string
  cmd_args :: "string list"

text \<open>
  Modelled from the spec: \<open>resp.CommandStream\<close> (not in the sources), the "lazy,
  single-pass, connection-bound sequence" of the arguments of a command whose name has
  been read; \<open>sc_left\<close> counts the arguments still on the wire.
\<close>

record command_stream =
  sc_name :: string
  sc_left :: nat

text \<open>
  Modelled from the spec: the operations of the reader that server.go and the session
  call. \<open>PeekCmd\<close> reads the name of the next command and consumes nothing.
\<close>

definition PeekCmd :: "reader \<Rightarrow> error + string" where
  "PeekCmd r =
     (case expect_hdr r of
        (Inl e, r') \<Rightarrow> Inl e
      | (Inr n, r') \<Rightarrow> fst (expect_bulk r'))"

text \<open>
  Modelled from the spec: \<open>ReadCmd\<close> reads the next command whole, "name and ordered
  arguments, or an error".
\<close>

definition ReadCmd :: "reader \<Rightarrow> (error + command) \<times> reader" where
  "ReadCmd r =
     (case expect_hdr r of
        (Inl e, r1) \<Rightarrow> (Inl e, r1)
      | (Inr n, r1) \<Rightarrow>
          (case expect_bulk r1 of
             (Inl e, r2) \<Rightarrow> (Inl e, r2)
           | (Inr nm, r2) \<Rightarrow>
               (case read_bulks (n - 1) r2 of
                  (Inl e, r3) \<Rightarrow> (Inl e, r3)
                | (Inr as, r3) \<Rightarrow> (Inr \<lparr>cmd_name = nm, cmd_args = as\<rparr>, r3))))"

text \<open>
  Modelled from the spec: \<open>StreamCmd\<close> reads the header and the name and leaves the
  arguments unread, for the handler to read them from the stream.
\<close>

definition StreamCmd :: "reader \<Rightarrow> (error + command_stream) \<times> reader" where
  "StreamCmd r =
     (case expect_hdr r of
        (Inl e, r1) \<Rightarrow> (Inl e, r1)
      | (Inr n, r1) \<Rightarrow>
          (case expect_bulk r1 of
             (Inl e, r2) \<Rightarrow> (Inl e, r2)
           | (Inr nm, r2) \<Rightarrow> (Inr \<lparr>sc_name = nm, sc_left = n - 1\<rparr>, r2)))"

text \<open>
  Modelled from the spec: \<open>SkipCmd\<close>, the "skip remaining arguments of the current
  command" of the unknown-command path: it skips the next command, its name and every
  argument.
\<close>

definition SkipCmd :: "reader \<Rightarrow> error option \<times> reader" where
  "SkipCmd r =
     (case expect_hdr r of
        (Inl e, r1) \<Rightarrow> (Some e, r1)
      | (Inr n, r1) \<Rightarrow> skip_bulks n r1)"

text \<open>
  Modelled from the spec: \<open>CommandStream.Discard\<close>, the same "for streaming-handler
  cleanup": it skips the arguments of the stream not yet read.
\<close>

definition Discard :: "command_stream \<Rightarrow> reader \<Rightarrow> error option \<times> reader" where
  "Discard sc r = skip_bulks (sc_left sc) r"

text \<open>
  Modelled from the spec: the writer of the protocol codec, "a buffered writer that
  appends typed reply values and exposes current buffered-byte count plus an explicit
  flush". \<open>buf\<close> is the buffer, \<open>sent\<close> what the transport has received, \<open>w_closed\<close>
  a transport that refuses writes.
\<close>

datatype reply = ErrorReply string | Value string

record writer =
  buf :: "reply list"
  sent :: "reply list"
  w_closed :: bool

fun reply_size :: "reply \<Rightarrow> nat" where
  "reply_size (ErrorReply m) = length m + 3"
| "reply_size (Value v) = length v"

definition AppendError :: "writer \<Rightarrow> string \<Rightarrow> writer" where
  "AppendError w msg = w\<lparr>buf := buf w @ [ErrorReply msg]\<rparr>"

definition Buffered :: "writer \<Rightarrow> nat" where
  "Buffered w = sum_list (map reply_size (buf w))"

definition Flush :: "writer \<Rightarrow> error option \<times> writer" where
  "Flush w =
     (if w_closed w then (Some (IOError ''use of closed network connection''), w)
      else (None, w\<lparr>sent := sent w @ buf w, buf := []\<rparr>))"

section \<open>Data model of server.go\<close>

text \<open>
  Modelled from the spec: \<open>Config\<close> (declared outside the sources), the "process-level
  configuration: TCP keep-alive enable + period; per-command read/write deadline
  duration". server.go reads these two fields, both durations (\<open>time.Duration\<close>, a
  signed count of nanoseconds). \<open>new(Config)\<close> is the zero value.
\<close>

record Config =
  Timeout :: int
  TCPKeepAlive :: int

definition zero_Config :: Config where
  "zero_Config = \<lparr>Timeout = 0, TCPKeepAlive = 0\<rparr>"

type_synonym client_id = "64 word"

text \<open>
  Modelled from the spec: the Client Registry (\<open>ServerInfo\<close>, not in the sources), a
  "mapping from connection id to live per-connection metadata", each record holding
  "last-seen command name, per-command invocation counter, and a back-reference to the
  live session". The mapping is kept as an association list with one entry per id, so
  that \<open>clients.All()\<close> can list it; \<open>Client_live\<close> says that the back-reference is not nil.
  \<open>history\<close> is a ghost field: the calls of register and deregister in the order they
  were made.
\<close>

record ClientInfo =
  ID :: client_id
  LastCmd :: string
  counts :: "string \<Rightarrow> nat"
  Client_live :: bool

datatype event = Registered client_id | Deregistered client_id

record ServerInfo =
  clients :: "(client_id \<times> ClientInfo) list"
  history :: "event list"

definition newServerInfo :: ServerInfo where
  "newServerInfo = \<lparr>clients = [], history = []\<rparr>"

text \<open>
  Modelled from the spec: "Register(session) adds a metadata record keyed by the
  session's id".
\<close>

definition info_register :: "ServerInfo \<Rightarrow> client_id \<Rightarrow> ServerInfo" where
  "info_register si i =
     si\<lparr>clients := AList.update i
            \<lparr>ID = i, LastCmd = [], counts = (\<lambda>n. 0), Client_live = True\<rparr> (clients si),
        history := history si @ [Registered i]\<rparr>"

text \<open>
  Modelled from the spec: "Deregister(id) removes the record for id if present;
  deregistering an unknown id is a no-op". The signal to the drain barrier is in
  server.go's own \<open>deregister\<close>.
\<close>

definition info_deregister :: "ServerInfo \<Rightarrow> client_id \<Rightarrow> ServerInfo" where
  "info_deregister si i =
     si\<lparr>clients := AList.delete i (clients si),
        history := history si @ [Deregistered i]\<rparr>"

text \<open>
  Modelled from the spec: "RecordCommand(id, name) updates last-seen command and
  increments that command's counter for id; no-op if id is not registered".
\<close>

definition info_command :: "ServerInfo \<Rightarrow> client_id \<Rightarrow> string \<Rightarrow> ServerInfo" where
  "info_command si i name =
     (case map_of (clients si) i of
        None \<Rightarrow> si
      | Some ci \<Rightarrow>
          si\<lparr>clients := AList.update i
                 (ci\<lparr>LastCmd := name, counts := (counts ci)(name := counts ci name + 1)\<rparr>)
                 (clients si)\<rparr>)"

text \<open>
  Modelled from the spec: "All() returns a snapshot sequence of all current metadata
  records at call time".
\<close>

definition clients_All :: "ServerInfo \<Rightarrow> ClientInfo list" where
  "clients_All si = map snd (clients si)"

text \<open>
  The two kinds of handler that \<open>Handle\<close> and \<open>HandleStream\<close> store in \<open>srv.cmds\<close>
  and that the type switch of \<open>perform\<close> tells apart. A handler is code of the server's
  user; the model keeps its effect on the reply writer. A streaming handler is given the
  arguments it could read from the stream and answers how many of them it reads. A nil
  handler and a handler that panics are outside the model.
\<close>

datatype handler =
  Handler "writer \<Rightarrow> command \<Rightarrow> writer"
| StreamHandler "writer \<Rightarrow> command_stream \<Rightarrow> string list \<Rightarrow> writer \<times> nat"

text \<open>
  \<open>released\<close> is the \<open>*sync.WaitGroup\<close> of a drain in progress: \<open>None\<close> is nil,
  \<open>Some n\<close> a wait group whose counter is \<open>n\<close>.
\<close>

record server =
  config :: Config
  info :: ServerInfo
  cmds :: "string \<rightharpoonup> handler"
  released :: "nat option"

text \<open>
  The session. \<open>rd\<close> and \<open>wr\<close> wrap the connection \<open>cn\<close>; \<open>cn_closed\<close> says that
  \<open>cn\<close> has been closed by \<open>release\<close>, and \<open>deadline\<close> is the duration of the
  deadline armed last (\<open>time.Now()\<close> is not modelled).
\<close>

record client =
  client_id :: client_id
  closed :: bool
  rd :: reader
  wr :: writer
  cmd :: command
  scmd :: command_stream
  cn_closed :: bool
  deadline :: "int option"

section \<open>server.go\<close>

text \<open>
  \<open>strings.ToLower\<close> belongs to Go's standard library. A Go string is a sequence of
  bytes, read as UTF-8; a rune is a code point (\<open>int32\<close>). The library works rune by
  rune, so the model has its decoder and its encoder: \<open>DecodeRune\<close> is
  \<open>utf8.DecodeRuneInString\<close>, which yields \<open>RuneError\<close> with width 1 for a byte that
  starts no well-formed sequence (overlong forms, surrogates and code points beyond
  U+10FFFF are not well-formed), \<open>runes\<close> is the sequence of runes a \<open>for range\<close> over
  the string sees, and \<open>AppendRune\<close> is \<open>utf8.AppendRune\<close>, which writes
  \<open>RuneError\<close> for a rune that is no code point.
\<close>

type_synonym rune = int

definition RuneError :: rune where
  "RuneError = 0xFFFD"

definition byte_in :: "char \<Rightarrow> int \<Rightarrow> int \<Rightarrow> bool" where
  "byte_in b lo hi = (lo \<le> of_char b \<and> (of_char b :: int) \<le> hi)"

definition tail_bits :: "char \<Rightarrow> int" where
  "tail_bits b = of_char b - 0x80"

fun DecodeRune :: "string \<Rightarrow> rune \<times> nat" where
  "DecodeRune [] = (RuneError, 0)"
| "DecodeRune (b0 # bs) =
     (let x = (of_char b0 :: int) in
      if x < 0x80 then (x, 1)
      else if 0xC2 \<le> x \<and> x \<le> 0xDF then
        (case bs of
           b1 # _ \<Rightarrow>
             if byte_in b1 0x80 0xBF then ((x - 0xC0) * 64 + tail_bits b1, 2)
             else (RuneError, 1)
         | _ \<Rightarrow> (RuneError, 1))
      else if 0xE0 \<le> x \<and> x \<le> 0xEF then
        (case bs of
           b1 # b2 # _ \<Rightarrow>
             if byte_in b1 (if x = 0xE0 then 0xA0 else 0x80) (if x = 0xED then 0x9F else 0xBF)
                \<and> byte_in b2 0x80 0xBF
             then ((x - 0xE0) * 4096 + tail_bits b1 * 64 + tail_bits b2, 3)
             else (RuneError, 1)
         | _ \<Rightarrow> (RuneError, 1))
      else if 0xF0 \<le> x \<and> x \<le> 0xF4 then
        (case bs of
           b1 # b2 # b3 # _ \<Rightarrow>
             if byte_in b1 (if x = 0xF0 then 0x90 else 0x80) (if x = 0xF4 then 0x8F else 0xBF)
                \<and> byte_in b2 0x80 0xBF \<and> byte_in b3 0x80 0xBF
             then ((x - 0xF0) * 262144 + tail_bits b1 * 4096 + tail_bits b2 * 64 + tail_bits b3, 4)
             else (RuneError, 1)
         | _ \<Rightarrow> (RuneError, 1))
      else (RuneError, 1))"

text \<open>
  The runes of a string from its first byte on, once \<open>k\<close> bytes have been passed over:
  the bytes a decoded rune takes beyond its first.
\<close>

fun runes_from :: "nat \<Rightarrow> string \<Rightarrow> rune list" where
  "runes_from k [] = []"
| "runes_from (Suc k) (b # bs) = runes_from k bs"
| "runes_from 0 (b # bs) =
     fst (DecodeRune (b # bs)) # runes_from (snd (DecodeRune (b # bs)) - 1) bs"

definition runes :: "string \<Rightarrow> rune list" where
  "runes s = runes_from 0 s"

definition AppendRune :: "rune \<Rightarrow> string" where
  "AppendRune r =
     (if r < 0 \<or> 0x10FFFF < r \<or> (0xD800 \<le> r \<and> r \<le> 0xDFFF)
      then [CHR 0xEF, CHR 0xBF, CHR 0xBD]
      else if r \<le> 0x7F then [char_of r]
      else if r \<le> 0x7FF then [char_of (0xC0 + r div 64), char_of (0x80 + r mod 64)]
      else if r \<le> 0xFFFF then
        [char_of (0xE0 + r div 4096), char_of (0x80 + r div 64 mod 64), char_of (0x80 + r mod 64)]
      else
        [char_of (0xF0 + r div 262144), char_of (0x80 + r div 4096 mod 64),
         char_of (0x80 + r div 64 mod 64), char_of (0x80 + r mod 64)])"

text \<open>
  \<open>strings.Map\<close>: every rune of the string is replaced by its image, and dropped when
  the image is negative. A byte that is no well-formed UTF-8 is read as \<open>RuneError\<close> and
  so comes out as the three bytes of U+FFFD.
\<close>

definition write_rune :: "rune \<Rightarrow> string" where
  "write_rune r = (if r < 0 then [] else AppendRune r)"

definition Map :: "(rune \<Rightarrow> rune) \<Rightarrow> string \<Rightarrow> string" where
  "Map mapping s = concat (map (\<lambda>c. write_rune (mapping c)) (runes s))"

text \<open>
  \<open>unicode.ToLower\<close>: the letters \<open>A\<close> to \<open>Z\<close> become \<open>a\<close> to \<open>z\<close>, every other
  rune up to U+007F is kept, and a rune beyond is looked up in the case tables of package
  unicode. These tables are not in the sources: \<open>U\<close>, the lower-case mapping they
  define, is a parameter of everything that lower-cases a name.
\<close>

definition unicode_ToLower :: "(rune \<Rightarrow> rune) \<Rightarrow> rune \<Rightarrow> rune" where
  "unicode_ToLower U r =
     (if r \<le> 0x7F then (if 0x41 \<le> r \<and> r \<le> 0x5A then r + 0x20 else r) else U r)"

text \<open>
  \<open>strings.ToLower\<close>: a string of ASCII bytes only is lower-cased byte by byte, any
  other string is \<open>Map(unicode.ToLower, s)\<close>.
\<close>

definition ascii_lower :: "char \<Rightarrow> char" where
  "ascii_lower b =
     (if 0x41 \<le> (of_char b :: int) \<and> (of_char b :: int) \<le> 0x5A
      then char_of ((of_char b :: int) + 0x20) else b)"

definition ToLower :: "(rune \<Rightarrow> rune) \<Rightarrow> string \<Rightarrow> string" where
  "ToLower U s =
     (if list_all (\<lambda>b. (of_char b :: int) < 0x80) s then map ascii_lower s
      else Map (unicode_ToLower U) s)"

definition NewServer :: "Config option \<Rightarrow> server" where
  "NewServer cfg =
     \<lparr>config = (case cfg of None \<Rightarrow> zero_Config | Some c \<Rightarrow> c),
      info = newServerInfo,
      cmds = Map.empty,
      released = None\<rparr>"

definition Handle ::
  "(rune \<Rightarrow> rune) \<Rightarrow> server \<Rightarrow> string \<Rightarrow> (writer \<Rightarrow> command \<Rightarrow> writer) \<Rightarrow> server" where
  "Handle U srv name h = srv\<lparr>cmds := (cmds srv)(ToLower U name \<mapsto> Handler h)\<rparr>"

definition HandleStream ::
  "(rune \<Rightarrow> rune) \<Rightarrow> server \<Rightarrow> string \<Rightarrow>
   (writer \<Rightarrow> command_stream \<Rightarrow> string list \<Rightarrow> writer \<times> nat) \<Rightarrow> server" where
  "HandleStream U srv name h =
     srv\<lparr>cmds := (cmds srv)(ToLower U name \<mapsto> StreamHandler h)\<rparr>"

definition register :: "server \<Rightarrow> client \<Rightarrow> server" where
  "register srv c = srv\<lparr>info := info_register (info srv) (client_id c)\<rparr>"

text \<open>
  \<open>deregister\<close>: \<open>WaitGroup.Done\<close> on a counter that is already zero panics
  ("sync: negative WaitGroup counter"); the first component says so.
\<close>

definition deregister :: "server \<Rightarrow> client_id \<Rightarrow> bool \<times> server" where
  "deregister srv i =
     (let srv1 = srv\<lparr>info := info_deregister (info srv) i\<rparr>
      in case released srv1 of
           None \<Rightarrow> (False, srv1)
         | Some n \<Rightarrow> (if n = 0 then (True, srv1) else (False, srv1\<lparr>released := Some (n - 1)\<rparr>)))"

text \<open>
  Modelled from the spec: \<open>UnknownCommand\<close> (not in the sources) builds the text of
  "an error value naming the unknown command".
\<close>

definition UnknownCommand :: "string \<Rightarrow> string" where
  "UnknownCommand name = ''ERR unknown command '' @ [CHR 0x27] @ name @ [CHR 0x27]"

text \<open>
  Modelled from the spec: the session's own helpers (client.go, not in the sources).
  \<open>readCmd\<close> "fully reads the command's argument list from the input stream" into the
  slot \<open>c.cmd\<close>; \<open>streamCmd\<close> "exposes the remaining arguments as a lazy, single-pass,
  connection-bound sequence" in the slot \<open>c.scmd\<close>; on an error the slot keeps what it
  held. \<open>release\<close> closes the underlying connection.
\<close>

definition readCmd :: "client \<Rightarrow> error option \<times> client" where
  "readCmd c =
     (case ReadCmd (rd c) of
        (Inl e, r) \<Rightarrow> (Some e, c\<lparr>rd := r\<rparr>)
      | (Inr cm, r) \<Rightarrow> (None, c\<lparr>rd := r, cmd := cm\<rparr>))"

definition streamCmd :: "client \<Rightarrow> error option \<times> client" where
  "streamCmd c =
     (case StreamCmd (rd c) of
        (Inl e, r) \<Rightarrow> (Some e, c\<lparr>rd := r\<rparr>)
      | (Inr sc, r) \<Rightarrow> (None, c\<lparr>rd := r, scmd := sc\<rparr>))"

definition release :: "client \<Rightarrow> client" where
  "release c =
     c\<lparr>cn_closed := True, rd := (rd c)\<lparr>r_closed := True\<rparr>, wr := (wr c)\<lparr>w_closed := True\<rparr>\<rparr>"

text \<open>
  Modelled from the spec: what a streaming handler can do with the "lazy, single-pass
  sequence" it is given. The arguments it can read are the bulk strings at the head of the
  input, at most as many as the stream has left.
\<close>

fun peek_bulks :: "nat \<Rightarrow> token list \<Rightarrow> string list" where
  "peek_bulks (Suc n) (Bulk b # ts) = b # peek_bulks n ts"
| "peek_bulks n ts = []"

text \<open>
  Modelled from the spec: \<open>handler.ServeRedeoStream(c.wr, c.scmd)\<close>. The handler
  writes its replies and reads \<open>k\<close> of the arguments, which leave the input; it "may
  read none or only part of them".
\<close>

definition ServeRedeoStream ::
  "(writer \<Rightarrow> command_stream \<Rightarrow> string list \<Rightarrow> writer \<times> nat) \<Rightarrow> client \<Rightarrow> client" where
  "ServeRedeoStream h c =
     (let avail = (if r_closed (rd c) then [] else peek_bulks (sc_left (scmd c)) (inp (rd c)));
          (w, k) = h (wr c) (scmd c) avail;
          k' = min k (length avail)
      in c\<lparr>wr := w,
           scmd := (scmd c)\<lparr>sc_left := sc_left (scmd c) - k'\<rparr>,
           rd := (rd c)\<lparr>inp := drop k' (inp (rd c))\<rparr>\<rparr>)"

text \<open>
  The end of \<open>perform\<close> (lines 180 to 184): flush when the buffer is large enough.
  \<open>MaxBufferSize\<close> is \<open>resp.MaxBufferSize\<close>, a constant of the codec.
\<close>

definition flush_large :: "nat \<Rightarrow> client \<Rightarrow> error option \<times> client" where
  "flush_large MaxBufferSize c =
     (if Buffered (wr c) > MaxBufferSize div 2
      then (case Flush (wr c) of (err, w) \<Rightarrow> (err, c\<lparr>wr := w\<rparr>))
      else (None, c))"

text \<open>
  \<open>perform\<close>. The deferred \<open>c.scmd.Discard()\<close> of the streaming case runs when
  \<open>perform\<close> returns, after the flush; its error is dropped, as the error of
  \<open>SkipCmd\<close> is.
\<close>

definition perform ::
  "(rune \<Rightarrow> rune) \<Rightarrow> nat \<Rightarrow> server \<Rightarrow> client \<Rightarrow> string \<Rightarrow> error option \<times> server \<times> client" where
  "perform U MaxBufferSize srv c name =
     (let norm = ToLower U name in
      case cmds srv norm of
        None \<Rightarrow>
          (None, srv,
           c\<lparr>wr := AppendError (wr c) (UnknownCommand name), rd := snd (SkipCmd (rd c))\<rparr>)
      | Some h \<Rightarrow>
          (let srv1 = srv\<lparr>info := info_command (info srv) (client_id c) norm\<rparr> in
           case h of
             Handler f \<Rightarrow>
               (case readCmd c of
                  (Some err, c1) \<Rightarrow> (Some err, srv1, c1)
                | (None, c1) \<Rightarrow>
                    (let c2 = c1\<lparr>wr := f (wr c1) (cmd c1)\<rparr>;
                         (err, c3) = flush_large MaxBufferSize c2
                     in (err, srv1, c3)))
           | StreamHandler g \<Rightarrow>
               (case streamCmd c of
                  (Some err, c1) \<Rightarrow> (Some err, srv1, c1)
                | (None, c1) \<Rightarrow>
                    (let c2 = ServeRedeoStream g c1;
                         (err, c3) = flush_large MaxBufferSize c2;
                         c4 = c3\<lparr>rd := snd (Discard (scmd c3) (rd c3))\<rparr>
                     in (err, srv1, c4)))))"

text \<open>
  Modelled from the spec: \<open>c.pipeline\<close> (client.go, not in the sources) "processes
  exactly one pipelined command": it reads the name of the next command and hands it to
  the dispatch step. When the name cannot be read, the error is returned after the reader
  has skipped what it can of the offending command.
\<close>

definition pipeline ::
  "(server \<Rightarrow> client \<Rightarrow> string \<Rightarrow> error option \<times> server \<times> client) \<Rightarrow>
   server \<Rightarrow> client \<Rightarrow> error option \<times> server \<times> client" where
  "pipeline fn srv c =
     (case PeekCmd (rd c) of
        Inl err \<Rightarrow> (Some err, srv, c\<lparr>rd := snd (SkipCmd (rd c))\<rparr>)
      | Inr name \<Rightarrow> fn srv c name)"

text \<open>
  One iteration of the loop of \<open>serveClient\<close> (lines 125 to 143). \<open>Return\<close> is a
  \<open>return\<close> out of the loop, \<open>Continue\<close> the end of the body.
\<close>

datatype flow = Continue | Return

definition set_deadline :: "server \<Rightarrow> client \<Rightarrow> client" where
  "set_deadline srv c =
     (if Timeout (config srv) > 0 then c\<lparr>deadline := Some (Timeout (config srv))\<rparr> else c)"

definition flush_or_return :: "server \<Rightarrow> client \<Rightarrow> flow \<times> server \<times> client" where
  "flush_or_return srv c =
     (case Flush (wr c) of
        (Some err, w) \<Rightarrow> (Return, srv, c\<lparr>wr := w\<rparr>)
      | (None, w) \<Rightarrow> (Continue, srv, c\<lparr>wr := w\<rparr>))"

definition serve_iter ::
  "(rune \<Rightarrow> rune) \<Rightarrow> nat \<Rightarrow> server \<Rightarrow> client \<Rightarrow> flow \<times> server \<times> client" where
  "serve_iter U MaxBufferSize srv c =
     (case pipeline (perform U MaxBufferSize) srv (set_deadline srv c) of
        (Some err, srv1, c1) \<Rightarrow>
          (let c2 = c1\<lparr>wr := AppendError (wr c1) (''ERR '' @ Error err)\<rparr> in
           if \<not> IsProtocolError err
           then (Return, srv1, c2\<lparr>wr := snd (Flush (wr c2))\<rparr>)
           else flush_or_return srv1 c2)
      | (None, srv1, c1) \<Rightarrow> flush_or_return srv1 c1)"

text \<open>
  The loop \<open>for !c.closed\<close>. It ends when the flag is set or the body returns; the
  first argument bounds the number of iterations, and \<open>None\<close> is a loop still running
  after that many.
\<close>

fun serve_loop ::
  "(rune \<Rightarrow> rune) \<Rightarrow> nat \<Rightarrow> nat \<Rightarrow> server \<Rightarrow> client \<Rightarrow> (server \<times> client) option" where
  "serve_loop U 0 MaxBufferSize srv c = (if closed c then Some (srv, c) else None)"
| "serve_loop U (Suc n) MaxBufferSize srv c =
     (if closed c then Some (srv, c)
      else case serve_iter U MaxBufferSize srv c of
             (Return, srv1, c1) \<Rightarrow> Some (srv1, c1)
           | (Continue, srv1, c1) \<Rightarrow> serve_loop U n MaxBufferSize srv1 c1)"

text \<open>
  \<open>serveClient\<close>: register, run the loop, then the deferred calls in reverse order,
  \<open>srv.deregister(c.id)\<close> first and \<open>c.release()\<close> last. The result holds whether
  \<open>deregister\<close> panicked.
\<close>

definition serveClient ::
  "(rune \<Rightarrow> rune) \<Rightarrow> nat \<Rightarrow> nat \<Rightarrow> server \<Rightarrow> client \<Rightarrow> (bool \<times> server \<times> client) option" where
  "serveClient U n MaxBufferSize srv c =
     (case serve_loop U n MaxBufferSize (register srv c) c of
        None \<Rightarrow> None
      | Some (srv1, c1) \<Rightarrow>
          (let (panicked, srv2) = deregister srv1 (client_id c)
           in Some (panicked, srv2, release c1)))"

section \<open>The accept loop\<close>

text \<open>
  What \<open>Serve\<close> sees of an accepted connection: the bytes it will deliver, whether it is
  a \<open>*net.TCPConn\<close>, and the keep-alive period set on it, if any.
\<close>

record conn =
  cn_input :: "token list"
  cn_tcp :: bool
  cn_keepalive :: "int option"

definition set_keepalive :: "server \<Rightarrow> conn \<Rightarrow> conn" where
  "set_keepalive srv cn =
     (let ka = TCPKeepAlive (config srv) in
      if ka > 0 then (if cn_tcp cn then cn\<lparr>cn_keepalive := Some ka\<rparr> else cn) else cn)"

text \<open>
  \<open>Serve\<close>. The listener is the sequence of the results of its \<open>Accept\<close> calls, an
  error or a connection. \<open>go srv.serveClient(newClient(cn))\<close> hands the connection to a
  goroutine of its own: the loop adds it to the connections handed over and goes on; it
  does not run the session. \<open>None\<close> is a loop blocked in \<open>Accept\<close> once the
  listed results are used up.
\<close>

fun Serve :: "server \<Rightarrow> (error + conn) list \<Rightarrow> conn list \<Rightarrow> (error \<times> conn list) option" where
  "Serve srv [] spawned = None"
| "Serve srv (Inl err # lis) spawned = Some (err, spawned)"
| "Serve srv (Inr cn # lis) spawned = Serve srv lis (spawned @ [set_keepalive srv cn])"

section \<open>The drain\<close>

text \<open>
  Modelled from the spec: \<open>newClient\<close> and \<open>Client.Close\<close> (client.go, not in the
  sources). A session is "created on accept" with a "unique id"; the generator of the ids
  is outside the sources, so the id is an argument. \<open>Close\<close> "forcibly closes the
  client's connection", which sets the closed flag and makes reads and writes fail.
\<close>

definition newClient :: "client_id \<Rightarrow> conn \<Rightarrow> client" where
  "newClient i cn =
     \<lparr>client_id = i, closed = False,
      rd = \<lparr>inp = cn_input cn, r_closed = False\<rparr>,
      wr = \<lparr>buf = [], sent = [], w_closed = False\<rparr>,
      cmd = \<lparr>cmd_name = [], cmd_args = []\<rparr>,
      scmd = \<lparr>sc_name = [], sc_left = 0\<rparr>,
      cn_closed = False, deadline = None\<rparr>"

definition Close :: "client \<Rightarrow> client" where
  "Close c =
     c\<lparr>closed := True, cn_closed := True,
       rd := (rd c)\<lparr>r_closed := True\<rparr>, wr := (wr c)\<lparr>w_closed := True\<rparr>\<rparr>"

text \<open>
  \<open>Release\<close> runs beside the goroutines of the sessions, so it is modelled step by
  step. \<open>pc\<close> is the place \<open>Release\<close> has reached: not called yet; \<open>infos\<close> taken
  (line 87); barrier installed and the clients of \<open>infos\<close> from index \<open>i\<close> on still
  to close (lines 88 to 93); returned (line 95).
\<close>

datatype pc = Idle | Snapshot "ClientInfo list" | Closing "ClientInfo list" | Finished

text \<open>
  The server with its live sessions. \<open>sessions\<close> holds the \<open>Client\<close> object of every
  session whose \<open>serveClient\<close> has not returned; \<open>panicked\<close> says that a goroutine
  has panicked.
\<close>

record system =
  the_server :: server
  sessions :: "client_id \<Rightarrow> client option"
  rel :: pc
  panicked :: bool

text \<open>
  The steps of the goroutines. Of \<open>Release\<close>: \<open>RelSnapshot\<close> is line 87,
  \<open>RelInstall\<close> line 88, \<open>RelClose\<close> one turn of the loop of lines 89 to 93
  (\<open>Add(1)\<close>, \<open>Close\<close> of the session if it is still live, and the back-reference
  of its record set to nil),
  \<open>RelWait\<close> the return of \<open>Wait\<close> and line 95; \<open>Wait\<close> returns only on a counter
  of zero. Of \<open>serveClient\<close>: \<open>Start c\<close> is the call of \<open>register\<close> for a new
  session, \<open>Step i\<close> one turn of the loop of session \<open>i\<close>, followed by the deferred
  \<open>deregister\<close> and \<open>release\<close> when the loop ends there.
\<close>

definition nil_Client :: "ServerInfo \<Rightarrow> client_id \<Rightarrow> ServerInfo" where
  "nil_Client si i =
     si\<lparr>clients := AList.map_entry i (\<lambda>ci. ci\<lparr>Client_live := False\<rparr>) (clients si)\<rparr>"

datatype action = RelSnapshot | RelInstall | RelClose | RelWait | Start client | Step client_id

definition session_exit :: "system \<Rightarrow> server \<Rightarrow> client_id \<Rightarrow> system" where
  "session_exit s srv i =
     (let (p, srv1) = deregister srv i
      in s\<lparr>the_server := srv1, sessions := (sessions s)(i := None), panicked := p\<rparr>)"

fun exec :: "(rune \<Rightarrow> rune) \<Rightarrow> nat \<Rightarrow> action \<Rightarrow> system \<Rightarrow> system option" where
  "exec U M RelSnapshot s =
     (if panicked s then None
      else case rel s of
        Idle \<Rightarrow> Some (s\<lparr>rel := Snapshot (clients_All (info (the_server s)))\<rparr>)
      | _ \<Rightarrow> None)"
| "exec U M RelInstall s =
     (if panicked s then None
      else case rel s of
        Snapshot infos \<Rightarrow>
          Some (s\<lparr>the_server := (the_server s)\<lparr>released := Some 0\<rparr>, rel := Closing infos\<rparr>)
      | _ \<Rightarrow> None)"
| "exec U M RelClose s =
     (if panicked s then None
      else case rel s of
        Closing (ci # infos) \<Rightarrow>
          (case released (the_server s) of
             None \<Rightarrow> None
           | Some n \<Rightarrow>
               Some (s\<lparr>the_server := (the_server s)
                         \<lparr>released := Some (n + 1),
                          info := nil_Client (info (the_server s)) (ID ci)\<rparr>,
                       sessions := (sessions s)(ID ci := map_option Close (sessions s (ID ci))),
                       rel := Closing infos\<rparr>))
      | _ \<Rightarrow> None)"
| "exec U M RelWait s =
     (if panicked s then None
      else case rel s of
        Closing [] \<Rightarrow>
          (if released (the_server s) = Some 0
           then Some (s\<lparr>the_server := (the_server s)\<lparr>released := None\<rparr>, rel := Finished\<rparr>)
           else None)
      | _ \<Rightarrow> None)"
| "exec U M (Start c) s =
     (if panicked s \<or> sessions s (client_id c) \<noteq> None
         \<or> map_of (clients (info (the_server s))) (client_id c) \<noteq> None
      then None
      else Some (s\<lparr>the_server := register (the_server s) c,
                   sessions := (sessions s)(client_id c \<mapsto> c)\<rparr>))"
| "exec U M (Step i) s =
     (if panicked s then None
      else case sessions s i of
        None \<Rightarrow> None
      | Some c \<Rightarrow>
          (if closed c then Some (session_exit s (the_server s) i)
           else case serve_iter U M (the_server s) c of
                  (Return, srv1, c1) \<Rightarrow> Some (session_exit s srv1 i)
                | (Continue, srv1, c1) \<Rightarrow>
                    Some (s\<lparr>the_server := srv1, sessions := (sessions s)(i \<mapsto> c1)\<rparr>)))"

text \<open>A schedule is run action by action; \<open>None\<close> when an action cannot be taken.\<close>

fun run :: "(rune \<Rightarrow> rune) \<Rightarrow> nat \<Rightarrow> action list \<Rightarrow> system \<Rightarrow> system option" where
  "run U M [] s = Some s"
| "run U M (a # as) s =
     (case exec U M a s of None \<Rightarrow> None | Some s' \<Rightarrow> run U M as s')"

text \<open>
  What the drain has come to: the place \<open>Release\<close> has reached, the ids in the
  registry, the barrier, and whether a goroutine has panicked.
\<close>

definition drain_state :: "system \<Rightarrow> pc \<times> client_id list \<times> nat option \<times> bool" where
  "drain_state s =
     (rel s, map fst (clients (info (the_server s))), released (the_server s), panicked s)"

section \<open>Notions the properties are stated with\<close>


section \<open>Sample servers and sessions\<close>

text \<open>
  The lower-case mapping of the capital letters of Latin-1, U+00C0 to U+00DE without the
  multiplication sign: a part of the case tables, for the samples.
\<close>

definition latin1_lower :: "rune \<Rightarrow> rune" where
  "latin1_lower r = (if 0xC0 \<le> r \<and> r \<le> 0xDE \<and> r \<noteq> 0xD7 then r + 0x20 else r)"

definition ping :: "writer \<Rightarrow> command \<Rightarrow> writer" where
  "ping w cm = w\<lparr>buf := buf w @ [Value ''+PONG'']\<rparr>"

definition sample_server :: server where
  "sample_server = Handle latin1_lower (NewServer None) ''PING'' ping"

definition ignore_args :: "writer \<Rightarrow> command_stream \<Rightarrow> string list \<Rightarrow> writer \<times> nat" where
  "ignore_args w sc as = (w\<lparr>buf := buf w @ [Value ''+OK'']\<rparr>, 0)"

definition sample_stream_server :: server where
  "sample_stream_server = HandleStream latin1_lower sample_server ''SET'' ignore_args"

definition sample_client :: "client_id \<Rightarrow> token list \<Rightarrow> client" where
  "sample_client i ts = newClient i \<lparr>cn_input = ts, cn_tcp = True, cn_keepalive = None\<rparr>"

definition sample_system :: system where
  "sample_system =
     \<lparr>the_server = register sample_server (sample_client 1 [Hdr 1, Bulk ''PING'']),
      sessions = [1 \<mapsto> sample_client 1 [Hdr 1, Bulk ''PING'']],
      rel = Idle, panicked = False\<rparr>"

section \<open>Unfolding the model\<close>

lemmas reader_defs = next_token_def expect_hdr_def expect_bulk_def PeekCmd_def ReadCmd_def
  StreamCmd_def SkipCmd_def Discard_def

lemmas writer_defs = AppendError_def Buffered_def Flush_def

lemmas session_defs = readCmd_def streamCmd_def ServeRedeoStream_def flush_large_def perform_def
  pipeline_def set_deadline_def flush_or_return_def serve_iter_def info_command_def

lemmas sample_defs = sample_server_def sample_client_def newClient_def ping_def Handle_def
  NewServer_def zero_Config_def newServerInfo_def

section \<open>The command registry\<close>







lemma lower_PING: "map ascii_lower ''PING'' = ''ping''"
  by code_simp

lemma lower_FOO: "map ascii_lower ''FOO'' = ''foo''"
  by code_simp

lemma lower_SET: "map ascii_lower ''SET'' = ''set''"
  by code_simp

lemma ToLower_PING: "ToLower U ''PING'' = ''ping''"
  by (simp add: ToLower_def lower_PING [simplified])

lemma ToLower_FOO: "ToLower U ''FOO'' = ''foo''"
  by (simp add: ToLower_def lower_FOO [simplified])

lemma ToLower_SET: "ToLower U ''SET'' = ''set''"
  by (simp add: ToLower_def lower_SET [simplified])



lemma ToLower_invalid_byte:
  "ToLower latin1_lower [CHR 0xFF, CHR ''T''] = [CHR 0xEF, CHR 0xBF, CHR 0xBD, CHR ''t'']"
  by code_simp



section \<open>The configuration\<close>

text \<open>
  Claim C9. \<open>NewServer\<close> with a nil configuration builds the server it builds from the
  zero-value configuration, so every operation on the two is the same; in particular the
  loop of a session arms no deadline and \<open>Serve\<close> sets no keep-alive.
\<close>

theorem NewServer_nil_config:
  "NewServer None = NewServer (Some \<lparr>Timeout = 0, TCPKeepAlive = 0\<rparr>) \<and>
   set_deadline (NewServer None) c = c \<and>
   set_keepalive (NewServer None) cn = cn"
  by (simp add: NewServer_def zero_Config_def set_deadline_def set_keepalive_def)

section \<open>Errors of the dispatch step in the loop of a session\<close>

text \<open>
  Claim C1, as amended. When the dispatch step returns an error, the session appends one
  error reply, the text of the error behind the tag \<open>ERR\<close>. If the error is not a
  protocol error, the session flushes what it can and \<open>serveClient\<close> leaves the loop at
  once. If it is a protocol error, the reply is flushed and the loop goes on with its next
  iteration; it ends there only when that flush fails.
\<close>

theorem serve_loop_on_error:
  assumes "\<not> closed c"
      and "pipeline (perform U M) srv (set_deadline srv c) = (Some err, srv1, c1)"
  shows "let c2 = c1\<lparr>wr := AppendError (wr c1) (''ERR '' @ Error err)\<rparr>;
             c3 = c2\<lparr>wr := snd (Flush (wr c2))\<rparr>
         in buf (wr c2) = buf (wr c1) @ [ErrorReply (''ERR '' @ Error err)] \<and>
            (if \<not> IsProtocolError err then serve_loop U (Suc n) M srv c = Some (srv1, c3)
             else if w_closed (wr c1) then serve_loop U (Suc n) M srv c = Some (srv1, c3)
             else serve_loop U (Suc n) M srv c = serve_loop U n M srv1 c3) \<and>
            (if w_closed (wr c1) then wr c3 = wr c2
             else sent (wr c3) = sent (wr c1) @ buf (wr c2) \<and> buf (wr c3) = [])"
  using assms
  by (simp add: serve_iter_def flush_or_return_def Flush_def AppendError_def Let_def)

theorem serve_loop_on_error_witness:
  "\<not> closed (sample_client 1 [Garbage]) \<and>
   pipeline (perform latin1_lower 64) sample_server (set_deadline sample_server (sample_client 1 [Garbage]))
     = (Some (ProtocolError ''Protocol error: expected an array''), sample_server,
        sample_client 1 []) \<and>
   serve_loop latin1_lower (Suc 1) 64 sample_server (sample_client 1 [Garbage])
     = serve_loop latin1_lower 1 64 sample_server
         ((sample_client 1 [])
            \<lparr>wr := \<lparr>buf = [], sent = [ErrorReply ''ERR Protocol error: expected an array''],
                     w_closed = False\<rparr>\<rparr>)"
proof -
  have h1: "\<not> closed (sample_client 1 [Garbage])"
    by (simp add: sample_defs)
  have h2: "pipeline (perform latin1_lower 64) sample_server
              (set_deadline sample_server (sample_client 1 [Garbage]))
            = (Some (ProtocolError ''Protocol error: expected an array''), sample_server,
               sample_client 1 [])"
    by (simp add: reader_defs session_defs sample_defs)
  have w: "\<not> w_closed (wr (sample_client 1 []))"
    by (simp add: sample_defs)
  show ?thesis
    using serve_loop_on_error [OF h1 h2, where n = 1] h1 h2 w
    by (simp add: Let_def writer_defs sample_client_def newClient_def)
qed

text \<open>
  Claim C1 as the spec states it fails both ways. On the input \<open>Garbage\<close>, \<open>PING\<close>
  the dispatch step returns a protocol error and the loop goes on: the reply to \<open>PING\<close>
  is sent after the error reply. On the empty input the error is the end of the stream,
  not a protocol error, and the iteration leaves the loop.
\<close>

theorem serve_loop_on_error_counterexample:
  "fst (pipeline (perform latin1_lower 64) sample_server
          (set_deadline sample_server (sample_client 1 [Garbage, Hdr 1, Bulk ''PING''])))
     = Some (ProtocolError ''Protocol error: expected an array'') \<and>
   fst (serve_iter latin1_lower 64 sample_server (sample_client 1 [Garbage, Hdr 1, Bulk ''PING''])) = Continue \<and>
   map_option (sent \<circ> wr \<circ> snd)
     (serve_loop latin1_lower 3 64 sample_server (sample_client 1 [Garbage, Hdr 1, Bulk ''PING'']))
     = Some [ErrorReply ''ERR Protocol error: expected an array'', Value ''+PONG'',
             ErrorReply ''ERR EOF''] \<and>
   fst (pipeline (perform latin1_lower 64) sample_server (set_deadline sample_server (sample_client 1 [])))
     = Some (IOError ''EOF'') \<and>
   fst (serve_iter latin1_lower 64 sample_server (sample_client 1 [])) = Return"
  by (simp add: reader_defs writer_defs session_defs sample_defs ToLower_PING numeral_3_eq_3
      Let_def)

section \<open>The dispatch step\<close>

lemma skip_bulks_args:
  "\<not> r_closed r \<Longrightarrow> inp r = map Bulk as @ rest \<Longrightarrow>
   skip_bulks (length as) r = (None, r\<lparr>inp := rest\<rparr>)"
proof (induction as arbitrary: r)
  case Nil
  then show ?case by simp
next
  case (Cons a as)
  have "expect_bulk r = (Inr a, r\<lparr>inp := map Bulk as @ rest\<rparr>)"
    using Cons.prems by (simp add: expect_bulk_def next_token_def)
  moreover have "skip_bulks (length as) (r\<lparr>inp := map Bulk as @ rest\<rparr>)
                 = (None, r\<lparr>inp := map Bulk as @ rest, inp := rest\<rparr>)"
    using Cons.prems by (intro Cons.IH) simp_all
  ultimately show ?case by simp
qed

lemma SkipCmd_command:
  assumes "\<not> r_closed r" and "inp r = Hdr (Suc (length as)) # Bulk nm # map Bulk as @ rest"
  shows "SkipCmd r = (None, r\<lparr>inp := rest\<rparr>)"
proof -
  have "expect_hdr r = (Inr (Suc (length as)), r\<lparr>inp := map Bulk (nm # as) @ rest\<rparr>)"
    using assms by (simp add: expect_hdr_def next_token_def)
  moreover have "skip_bulks (length (nm # as)) (r\<lparr>inp := map Bulk (nm # as) @ rest\<rparr>)
                 = (None, r\<lparr>inp := map Bulk (nm # as) @ rest, inp := rest\<rparr>)"
    using assms by (intro skip_bulks_args) simp_all
  ultimately show ?thesis by (simp add: SkipCmd_def)
qed

lemma PeekCmd_command:
  assumes "\<not> r_closed r" and "inp r = Hdr (Suc n) # Bulk nm # rest"
  shows "PeekCmd r = Inr nm"
  using assms by (simp add: PeekCmd_def expect_hdr_def expect_bulk_def next_token_def)

lemma peek_bulks_args: "peek_bulks (length as) (map Bulk as @ rest) = as"
  by (induction as) simp_all

lemma flush_large_keeps:
  "rd (snd (flush_large M c)) = rd c \<and> scmd (snd (flush_large M c)) = scmd c"
  by (simp add: flush_large_def split: prod.splits)

text \<open>
  Claim C4. For a name with no registered handler, \<open>perform\<close> returns no error, leaves
  the server as it is (the command is not recorded), appends exactly one error reply, whose
  text names the command, and does not set the closed flag. When the command is on the
  wire, a header, the name and the arguments, the reader is left at the first byte after
  its last argument. The iteration of the loop that dispatches it flushes the reply and
  goes on.
\<close>

theorem perform_unknown_command:
  assumes "cmds srv (ToLower U name) = None"
  shows "fst (perform U M srv c name) = None \<and>
         fst (snd (perform U M srv c name)) = srv \<and>
         wr (snd (snd (perform U M srv c name)))
           = (wr c)\<lparr>buf := buf (wr c) @ [ErrorReply (UnknownCommand name)]\<rparr> \<and>
         UnknownCommand name = ''ERR unknown command '' @ [CHR 0x27] @ name @ [CHR 0x27] \<and>
         closed (snd (snd (perform U M srv c name))) = closed c \<and>
         (\<forall>args nm rest.
            \<not> r_closed (rd c) \<and> inp (rd c) = Hdr (Suc (length args)) # Bulk nm # map Bulk args @ rest
            \<longrightarrow> rd (snd (snd (perform U M srv c name))) = (rd c)\<lparr>inp := rest\<rparr>) \<and>
         (\<forall>args rest.
            \<not> r_closed (rd c) \<and> \<not> w_closed (wr c) \<and>
            inp (rd c) = Hdr (Suc (length args)) # Bulk name # map Bulk args @ rest
            \<longrightarrow> fst (serve_iter U M srv c) = Continue \<and>
                rd (snd (snd (serve_iter U M srv c))) = (rd c)\<lparr>inp := rest\<rparr> \<and>
                sent (wr (snd (snd (serve_iter U M srv c))))
                  = sent (wr c) @ buf (wr c) @ [ErrorReply (UnknownCommand name)])"
proof -
  have p: "perform U M srv c' name
           = (None, srv, c'\<lparr>wr := AppendError (wr c') (UnknownCommand name),
                             rd := snd (SkipCmd (rd c'))\<rparr>)" for c'
    using assms by (simp add: perform_def)
  have skip: "rd (snd (snd (perform U M srv c name))) = (rd c)\<lparr>inp := rest\<rparr>"
    if "\<not> r_closed (rd c)" "inp (rd c) = Hdr (Suc (length args)) # Bulk nm # map Bulk args @ rest"
    for args nm rest
    using SkipCmd_command [OF that] by (simp add: p)
  have iter: "fst (serve_iter U M srv c) = Continue \<and>
              rd (snd (snd (serve_iter U M srv c))) = (rd c)\<lparr>inp := rest\<rparr> \<and>
              sent (wr (snd (snd (serve_iter U M srv c))))
                = sent (wr c) @ buf (wr c) @ [ErrorReply (UnknownCommand name)]"
    if r: "\<not> r_closed (rd c)" and w: "\<not> w_closed (wr c)"
      and i: "inp (rd c) = Hdr (Suc (length args)) # Bulk name # map Bulk args @ rest"
    for args rest
  proof -
    have rd': "rd (set_deadline srv c) = rd c" and wr': "wr (set_deadline srv c) = wr c"
      by (simp_all add: set_deadline_def)
    have peek: "PeekCmd (rd c) = Inr name"
      using PeekCmd_command [OF r i] .
    have sk: "SkipCmd (rd c) = (None, (rd c)\<lparr>inp := rest\<rparr>)"
      using SkipCmd_command [OF r i] .
    show ?thesis
      using w by (simp add: serve_iter_def pipeline_def peek p rd' wr' sk flush_or_return_def
          Flush_def AppendError_def)
  qed
  show ?thesis
    using skip iter by (simp add: p AppendError_def UnknownCommand_def)
qed

theorem perform_unknown_command_witness:
  "cmds sample_server (ToLower latin1_lower ''FOO'') = None \<and>
   fst (perform latin1_lower 64 sample_server
          (sample_client 1 [Hdr 2, Bulk ''FOO'', Bulk ''x'', Hdr 1, Bulk ''PING'']) ''FOO'') = None \<and>
   rd (snd (snd (perform latin1_lower 64 sample_server
          (sample_client 1 [Hdr 2, Bulk ''FOO'', Bulk ''x'', Hdr 1, Bulk ''PING'']) ''FOO'')))
     = \<lparr>inp = [Hdr 1, Bulk ''PING''], r_closed = False\<rparr> \<and>
   fst (serve_iter latin1_lower 64 sample_server
          (sample_client 1 [Hdr 2, Bulk ''FOO'', Bulk ''x'', Hdr 1, Bulk ''PING''])) = Continue"
proof -
  define c where "c = sample_client 1 [Hdr 2, Bulk ''FOO'', Bulk ''x'', Hdr 1, Bulk ''PING'']"
  have h: "cmds sample_server (ToLower latin1_lower ''FOO'') = None"
    by (simp add: sample_defs ToLower_FOO ToLower_PING)
  have r: "\<not> r_closed (rd c) \<and> \<not> w_closed (wr c) \<and>
           inp (rd c) = Hdr (Suc (length [''x''])) # Bulk ''FOO'' # map Bulk [''x''] @ [Hdr 1, Bulk ''PING'']"
    by (simp add: c_def sample_defs)
  have rc: "(rd c)\<lparr>inp := [Hdr 1, Bulk ''PING'']\<rparr> = \<lparr>inp = [Hdr 1, Bulk ''PING''], r_closed = False\<rparr>"
    by (simp add: c_def sample_defs)
  from perform_unknown_command [OF h, where M = 64 and c = c]
  have "fst (perform latin1_lower 64 sample_server c ''FOO'') = None"
    and "\<forall>args nm rest.
            \<not> r_closed (rd c) \<and> inp (rd c) = Hdr (Suc (length args)) # Bulk nm # map Bulk args @ rest
            \<longrightarrow> rd (snd (snd (perform latin1_lower 64 sample_server c ''FOO''))) = (rd c)\<lparr>inp := rest\<rparr>"
    and "\<forall>args rest.
            \<not> r_closed (rd c) \<and> \<not> w_closed (wr c) \<and>
            inp (rd c) = Hdr (Suc (length args)) # Bulk ''FOO'' # map Bulk args @ rest
            \<longrightarrow> fst (serve_iter latin1_lower 64 sample_server c) = Continue \<and>
                rd (snd (snd (serve_iter latin1_lower 64 sample_server c))) = (rd c)\<lparr>inp := rest\<rparr> \<and>
                sent (wr (snd (snd (serve_iter latin1_lower 64 sample_server c))))
                  = sent (wr c) @ buf (wr c) @ [ErrorReply (UnknownCommand ''FOO'')]"
    by blast+
  with r h rc show ?thesis
    unfolding c_def [symmetric] by metis
qed

lemma perform_stream_on_wire:
  assumes "cmds srv (ToLower U name) = Some (StreamHandler g)"
      and "\<not> r_closed (rd c)"
      and "inp (rd c) = Hdr (Suc (length args)) # Bulk nm # map Bulk args @ rest"
  shows "rd (snd (snd (perform U M srv c name))) = (rd c)\<lparr>inp := rest\<rparr> \<and>
         (let c1 = snd (streamCmd c);
              k = min (snd (g (wr c1) (scmd c1) args)) (length args)
          in inp (rd (ServeRedeoStream g c1)) = map Bulk (drop k args) @ rest)"
proof -
  define c1 where "c1 = c\<lparr>rd := (rd c)\<lparr>inp := map Bulk args @ rest\<rparr>,
                           scmd := \<lparr>sc_name = nm, sc_left = length args\<rparr>\<rparr>"
  have sc: "streamCmd c = (None, c1)"
    using assms(2,3) by (simp add: streamCmd_def StreamCmd_def expect_hdr_def expect_bulk_def
        next_token_def c1_def)
  obtain w k where g: "g (wr c1) (scmd c1) args = (w, k)"
    by force
  define k' where "k' = min k (length args)"
  define c2 where "c2 = ServeRedeoStream g c1"
  have avail: "peek_bulks (sc_left (scmd c1)) (inp (rd c1)) = args"
    by (simp add: c1_def peek_bulks_args)
  have c2_rd: "rd c2 = (rd c)\<lparr>inp := map Bulk (drop k' args) @ rest\<rparr>"
    using assms(2) avail g
    by (simp add: c2_def ServeRedeoStream_def k'_def drop_map Let_def c1_def)
  have c2_scmd: "sc_left (scmd c2) = length (drop k' args)"
    using assms(2) avail g
    by (simp add: c2_def ServeRedeoStream_def k'_def Let_def c1_def)
  define c3 where "c3 = snd (flush_large M c2)"
  have c3: "rd c3 = rd c2" "scmd c3 = scmd c2"
    by (simp_all add: c3_def flush_large_keeps)
  have "skip_bulks (length (drop k' args)) (rd c2) = (None, (rd c2)\<lparr>inp := rest\<rparr>)"
    using assms(2) by (intro skip_bulks_args) (simp_all add: c2_rd)
  then have disc: "snd (Discard (scmd c3) (rd c3)) = (rd c)\<lparr>inp := rest\<rparr>"
    by (simp add: Discard_def c3 c2_scmd c2_rd)
  have "rd (snd (snd (perform U M srv c name))) = snd (Discard (scmd c3) (rd c3))"
    using assms(1) by (simp add: perform_def sc c2_def [symmetric] c3_def split: prod.splits)
  moreover have "inp (rd (ServeRedeoStream g (snd (streamCmd c))))
                 = map Bulk (drop (min (snd (g (wr (snd (streamCmd c))) (scmd (snd (streamCmd c))) args))
                     (length args)) args) @ rest"
    using c2_rd g by (simp add: sc c2_def [symmetric] k'_def)
  ultimately show ?thesis
    by (simp add: disc Let_def)
qed

text \<open>
  Claim C5. After a streaming handler has returned, \<open>perform\<close> discards what the
  handler has left of the stream: the reader it leaves is the reader the handler left,
  after \<open>Discard\<close>. For a command that is on the wire, the reader is left at the first
  byte after the command's last argument, however many of the arguments the handler has
  read: \<open>k\<close> of them, none included, are gone when the handler returns, and the deferred
  \<open>Discard\<close> removes the others.
\<close>

theorem perform_stream_discards_rest:
  assumes "cmds srv (ToLower U name) = Some (StreamHandler g)"
  shows "(\<forall>c1. streamCmd c = (None, c1) \<longrightarrow>
            rd (snd (snd (perform U M srv c name)))
              = snd (Discard (scmd (ServeRedeoStream g c1)) (rd (ServeRedeoStream g c1)))) \<and>
         (\<forall>args nm rest.
            \<not> r_closed (rd c) \<and> inp (rd c) = Hdr (Suc (length args)) # Bulk nm # map Bulk args @ rest
            \<longrightarrow> rd (snd (snd (perform U M srv c name))) = (rd c)\<lparr>inp := rest\<rparr> \<and>
                (let c1 = snd (streamCmd c);
                     k = min (snd (g (wr c1) (scmd c1) args)) (length args)
                 in inp (rd (ServeRedeoStream g c1)) = map Bulk (drop k args) @ rest))"
proof -
  have "rd (snd (snd (perform U M srv c name)))
          = snd (Discard (scmd (ServeRedeoStream g c1)) (rd (ServeRedeoStream g c1)))"
    if "streamCmd c = (None, c1)" for c1
    using assms that flush_large_keeps [of M "ServeRedeoStream g c1"]
    by (auto simp: perform_def Let_def split: prod.splits)
  then show ?thesis
    using perform_stream_on_wire [OF assms] by blast
qed

theorem perform_stream_discards_rest_witness:
  "cmds sample_stream_server (ToLower latin1_lower ''SET'') = Some (StreamHandler ignore_args) \<and>
   rd (snd (snd (perform latin1_lower 64 sample_stream_server
          (sample_client 1 [Hdr 3, Bulk ''SET'', Bulk ''k'', Bulk ''v'', Hdr 1, Bulk ''PING''])
          ''SET'')))
     = \<lparr>inp = [Hdr 1, Bulk ''PING''], r_closed = False\<rparr>"
proof -
  define c where
    "c = sample_client 1 [Hdr 3, Bulk ''SET'', Bulk ''k'', Bulk ''v'', Hdr 1, Bulk ''PING'']"
  have h1: "cmds sample_stream_server (ToLower latin1_lower ''SET'') = Some (StreamHandler ignore_args)"
    by (simp add: sample_stream_server_def HandleStream_def ToLower_SET)
  have h2: "\<not> r_closed (rd c)"
    by (simp add: c_def sample_defs)
  have h3: "inp (rd c) = Hdr (Suc (length [''k'', ''v''])) # Bulk ''SET'' # map Bulk [''k'', ''v'']
              @ [Hdr 1, Bulk ''PING'']"
    by (simp add: c_def sample_defs)
  have rc: "(rd c)\<lparr>inp := [Hdr 1, Bulk ''PING'']\<rparr> = \<lparr>inp = [Hdr 1, Bulk ''PING''], r_closed = False\<rparr>"
    by (simp add: c_def sample_defs)
  have "rd (snd (snd (perform latin1_lower 64 sample_stream_server c ''SET'')))
          = (rd c)\<lparr>inp := [Hdr 1, Bulk ''PING'']\<rparr>"
    using perform_stream_discards_rest [OF h1, where c = c and M = 64] h2 h3 by blast
  then show ?thesis
    using h1 rc unfolding c_def [symmetric] by simp
qed

text \<open>
  Claim C7. When \<open>perform\<close> has found a handler and read the command, the writer it
  leaves is the writer the handler left, flushed if and only if it buffers more than
  \<open>MaxBufferSize / 2\<close> bytes (Go's integer division; for a whole number of bytes that
  is more than half of \<open>MaxBufferSize\<close>); the error of that flush is the error
  \<open>perform\<close> returns. A flush moves the buffer to the transport, unless the transport
  refuses it.
\<close>

theorem perform_flush_threshold:
  assumes "cmds srv (ToLower U name) = Some h"
      and "(case h of Handler f \<Rightarrow> readCmd c | StreamHandler g \<Rightarrow> streamCmd c) = (None, c1)"
  shows "let w = (case h of Handler f \<Rightarrow> f (wr c1) (cmd c1)
                          | StreamHandler g \<Rightarrow> wr (ServeRedeoStream g c1))
         in wr (snd (snd (perform U M srv c name)))
              = (if M div 2 < Buffered w then snd (Flush w) else w) \<and>
            fst (perform U M srv c name)
              = (if M div 2 < Buffered w then fst (Flush w) else None) \<and>
            (M div 2 < Buffered w) = (M < 2 * Buffered w) \<and>
            snd (Flush w) = (if w_closed w then w else w\<lparr>sent := sent w @ buf w, buf := []\<rparr>)"
proof (cases h)
  case (Handler f)
  then show ?thesis
    using assms by (auto simp: perform_def flush_large_def Flush_def Let_def split: prod.splits)
next
  case (StreamHandler g)
  then show ?thesis
    using assms by (auto simp: perform_def flush_large_def Flush_def Let_def split: prod.splits)
qed

theorem perform_flush_threshold_witness:
  "cmds sample_server (ToLower latin1_lower ''PING'') = Some (Handler ping) \<and>
   wr (snd (snd (perform latin1_lower 8 sample_server (sample_client 1 [Hdr 1, Bulk ''PING'']) ''PING'')))
     = \<lparr>buf = [], sent = [Value ''+PONG''], w_closed = False\<rparr> \<and>
   wr (snd (snd (perform latin1_lower 64 sample_server (sample_client 1 [Hdr 1, Bulk ''PING'']) ''PING'')))
     = \<lparr>buf = [Value ''+PONG''], sent = [], w_closed = False\<rparr>"
proof -
  define c where "c = sample_client 1 [Hdr 1, Bulk ''PING'']"
  define c1 where "c1 = c\<lparr>rd := \<lparr>inp = [], r_closed = False\<rparr>,
                           cmd := \<lparr>cmd_name = ''PING'', cmd_args = []\<rparr>\<rparr>"
  have h1: "cmds sample_server (ToLower latin1_lower ''PING'') = Some (Handler ping)"
    by (simp add: sample_defs)
  have h2: "(case Handler ping of Handler f \<Rightarrow> readCmd c | StreamHandler g \<Rightarrow> streamCmd c)
            = (None, c1)"
    by (simp add: c_def c1_def sample_defs readCmd_def reader_defs)
  have w: "ping (wr c1) (cmd c1) = \<lparr>buf = [Value ''+PONG''], sent = [], w_closed = False\<rparr>"
    by (simp add: c_def c1_def sample_defs)
  show ?thesis
    using perform_flush_threshold [OF h1 h2, where M = 8] perform_flush_threshold [OF h1 h2, where M = 64] h1
    unfolding c_def [symmetric] by (simp add: w Let_def Buffered_def Flush_def)
qed

text \<open>
  Claim C10. \<open>perform\<close> records the command before it reads the arguments: when reading
  them fails, \<open>perform\<close> returns the error, no handler has run, and the record of a
  registered session holds the command as the last one seen, its counter one higher.
\<close>

theorem perform_counts_failed_command:
  assumes "cmds srv (ToLower U name) = Some h"
      and "(case h of Handler f \<Rightarrow> readCmd c | StreamHandler g \<Rightarrow> streamCmd c) = (Some err, c1)"
      and "map_of (clients (info srv)) (client_id c) = Some ci"
  shows "perform U M srv c name
           = (Some err, srv\<lparr>info := info_command (info srv) (client_id c) (ToLower U name)\<rparr>, c1) \<and>
         map_of (clients (info (fst (snd (perform U M srv c name))))) (client_id c)
           = Some (ci\<lparr>LastCmd := ToLower U name,
                       counts := (counts ci)(ToLower U name := counts ci (ToLower U name) + 1)\<rparr>) \<and>
         wr c1 = wr c"
proof -
  have p: "perform U M srv c name
           = (Some err, srv\<lparr>info := info_command (info srv) (client_id c) (ToLower U name)\<rparr>, c1)"
    using assms(1,2) by (cases h) (simp_all add: perform_def)
  have w: "wr c1 = wr c"
    using assms(2)
    by (cases h) (auto simp: readCmd_def streamCmd_def split: prod.splits sum.splits)
  show ?thesis
    using assms(3) by (simp add: p w info_command_def update_conv')
qed

theorem perform_counts_failed_command_witness:
  "cmds (register sample_server (sample_client 1 [])) (ToLower latin1_lower ''PING'') = Some (Handler ping) \<and>
   fst (perform latin1_lower 64 (register sample_server (sample_client 1 []))
          (sample_client 1 [Hdr 2, Bulk ''PING'', Garbage]) ''PING'')
     = Some (ProtocolError ''Protocol error: expected a bulk string'') \<and>
   map_option (\<lambda>ci. (LastCmd ci, counts ci ''ping''))
     (map_of (clients (info (fst (snd (perform latin1_lower 64 (register sample_server (sample_client 1 []))
          (sample_client 1 [Hdr 2, Bulk ''PING'', Garbage]) ''PING''))))) 1)
     = Some (''ping'', 1)"
proof -
  define c where "c = sample_client 1 [Hdr 2, Bulk ''PING'', Garbage]"
  define srv where "srv = register sample_server (sample_client 1 [])"
  define c1 where "c1 = c\<lparr>rd := \<lparr>inp = [], r_closed = False\<rparr>\<rparr>"
  define ci where "ci = \<lparr>ID = 1, LastCmd = [], counts = (\<lambda>n. 0::nat), Client_live = True\<rparr>"
  have h1: "cmds srv (ToLower latin1_lower ''PING'') = Some (Handler ping)"
    by (simp add: srv_def register_def sample_defs)
  have h2: "(case Handler ping of Handler f \<Rightarrow> readCmd c | StreamHandler g \<Rightarrow> streamCmd c)
            = (Some (ProtocolError ''Protocol error: expected a bulk string''), c1)"
    by (simp add: c_def c1_def sample_defs readCmd_def reader_defs)
  have h3: "map_of (clients (info srv)) (client_id c) = Some ci"
    by (simp add: srv_def c_def ci_def register_def info_register_def sample_defs)
  have cid: "client_id c = 1"
    by (simp add: c_def sample_defs)
  note inst = perform_counts_failed_command [OF h1 h2 h3, where M = 64]
  have "fst (perform latin1_lower 64 srv c ''PING'')
          = Some (ProtocolError ''Protocol error: expected a bulk string'')"
    using inst [THEN conjunct1] by simp
  moreover have "map_of (clients (info (fst (snd (perform latin1_lower 64 srv c ''PING''))))) 1
          = Some (ci\<lparr>LastCmd := ''ping'', counts := (counts ci)(''ping'' := counts ci ''ping'' + 1)\<rparr>)"
    using inst [THEN conjunct2, THEN conjunct1] by (simp only: cid ToLower_PING)
  ultimately show ?thesis
    using h1 unfolding c_def [symmetric] srv_def [symmetric]
    by (simp add: ci_def)
qed

section \<open>The life of a session\<close>

text \<open>
  Every operation of the reader leaves at most the input it found, and less when it has
  read a header or reports a protocol error. So an iteration of the loop that does not
  leave it has consumed input, and the loop of a session ends within one iteration more
  than its input has tokens.
\<close>

lemma next_token_consumes:
  "next_token r = (x, r') \<Longrightarrow>
   length (inp r') \<le> length (inp r) \<and> r_closed r' = r_closed r \<and>
   (case x of Inl e \<Rightarrow> \<not> IsProtocolError e | Inr t \<Rightarrow> length (inp r') < length (inp r))"
  by (auto simp: next_token_def split: if_splits list.splits token.splits)

lemma expect_hdr_consumes:
  "expect_hdr r = (x, r') \<Longrightarrow>
   length (inp r') \<le> length (inp r) \<and>
   (case x of Inl e \<Rightarrow> IsProtocolError e \<longrightarrow> length (inp r') < length (inp r)
            | Inr n \<Rightarrow> length (inp r') < length (inp r))"
  using next_token_consumes [of r]
  by (fastforce simp: expect_hdr_def split: prod.splits sum.splits token.splits if_splits)

lemma expect_bulk_consumes:
  "expect_bulk r = (x, r') \<Longrightarrow> length (inp r') \<le> length (inp r)"
  using next_token_consumes [of r]
  by (fastforce simp: expect_bulk_def split: prod.splits sum.splits token.splits if_splits)

lemma read_bulks_consumes:
  "read_bulks n r = (x, r') \<Longrightarrow> length (inp r') \<le> length (inp r)"
proof (induction n arbitrary: r x r')
  case 0
  then show ?case by simp
next
  case (Suc n)
  obtain y r1 where e: "expect_bulk r = (y, r1)" by force
  have le1: "length (inp r1) \<le> length (inp r)"
    using expect_bulk_consumes [OF e] .
  show ?case
  proof (cases y)
    case (Inl err)
    then show ?thesis using Suc.prems e le1 by simp
  next
    case (Inr b)
    obtain z r2 where rb: "read_bulks n r1 = (z, r2)" by force
    have "length (inp r2) \<le> length (inp r1)"
      using Suc.IH [OF rb] .
    then show ?thesis
      using Suc.prems e Inr rb le1 by (auto split: sum.splits)
  qed
qed

lemma skip_bulks_consumes:
  "skip_bulks n r = (x, r') \<Longrightarrow> length (inp r') \<le> length (inp r)"
proof (induction n arbitrary: r x r')
  case 0
  then show ?case by simp
next
  case (Suc n)
  obtain y r1 where e: "expect_bulk r = (y, r1)" by force
  have le1: "length (inp r1) \<le> length (inp r)"
    using expect_bulk_consumes [OF e] .
  show ?case
  proof (cases y)
    case (Inl err)
    then show ?thesis using Suc.prems e le1 by simp
  next
    case (Inr b)
    then have "skip_bulks n r1 = (x, r')"
      using Suc.prems e by simp
    from Suc.IH [OF this] le1 show ?thesis by simp
  qed
qed


lemma ReadCmd_consumes:
  assumes "case fst (expect_hdr r) of Inl e \<Rightarrow> IsProtocolError e | Inr n \<Rightarrow> True"
      and "ReadCmd r = (x, r')"
  shows "length (inp r') < length (inp r)"
proof -
  obtain y r1 where h: "expect_hdr r = (y, r1)" by force
  have lt: "length (inp r1) < length (inp r)"
    using expect_hdr_consumes [OF h] assms(1) h by (auto split: sum.splits)
  show ?thesis
  proof (cases y)
    case (Inl e)
    then show ?thesis using assms(2) h lt by (simp add: ReadCmd_def)
  next
    case (Inr n)
    obtain z r2 where b: "expect_bulk r1 = (z, r2)" by force
    have le2: "length (inp r2) \<le> length (inp r1)"
      using expect_bulk_consumes [OF b] .
    show ?thesis
    proof (cases z)
      case (Inl e)
      then show ?thesis using assms(2) h Inr b lt le2 by (simp add: ReadCmd_def)
    next
      case nm: (Inr nm)
      obtain u r3 where rb: "read_bulks (n - 1) r2 = (u, r3)" by force
      have "length (inp r3) \<le> length (inp r2)"
        using read_bulks_consumes [OF rb] .
      then show ?thesis
        using assms(2) h Inr b nm rb lt le2 by (auto simp: ReadCmd_def split: sum.splits)
    qed
  qed
qed

lemma StreamCmd_consumes:
  assumes "case fst (expect_hdr r) of Inl e \<Rightarrow> IsProtocolError e | Inr n \<Rightarrow> True"
      and "StreamCmd r = (x, r')"
  shows "length (inp r') < length (inp r)"
proof -
  obtain y r1 where h: "expect_hdr r = (y, r1)" by force
  have lt: "length (inp r1) < length (inp r)"
    using expect_hdr_consumes [OF h] assms(1) h by (auto split: sum.splits)
  obtain z r2 where b: "expect_bulk r1 = (z, r2)" by force
  have le2: "length (inp r2) \<le> length (inp r1)"
    using expect_bulk_consumes [OF b] .
  show ?thesis
    using assms(2) h b lt le2 by (auto simp: StreamCmd_def split: sum.splits)
qed

lemma SkipCmd_consumes:
  assumes "case fst (expect_hdr r) of Inl e \<Rightarrow> IsProtocolError e | Inr n \<Rightarrow> True"
  shows "length (inp (snd (SkipCmd r))) < length (inp r)"
proof -
  obtain y r1 where h: "expect_hdr r = (y, r1)" by force
  have lt: "length (inp r1) < length (inp r)"
    using expect_hdr_consumes [OF h] assms(1) h by (auto split: sum.splits)
  show ?thesis
  proof (cases y)
    case (Inl e)
    then show ?thesis using h lt by (simp add: SkipCmd_def)
  next
    case (Inr n)
    obtain z r2 where sk: "skip_bulks n r1 = (z, r2)" by force
    from skip_bulks_consumes [OF sk] show ?thesis
      using h Inr sk lt by (simp add: SkipCmd_def)
  qed
qed

lemma PeekCmd_header:
  assumes "case PeekCmd r of Inl e \<Rightarrow> IsProtocolError e | Inr nm \<Rightarrow> True"
  shows "case fst (expect_hdr r) of Inl e \<Rightarrow> IsProtocolError e | Inr n \<Rightarrow> True"
  using assms by (auto simp: PeekCmd_def split: prod.splits sum.splits)

lemma perform_consumes:
  assumes "case fst (expect_hdr (rd c)) of Inl e \<Rightarrow> IsProtocolError e | Inr n \<Rightarrow> True"
      and "perform U M srv c name = (e, srv1, c1)"
  shows "length (inp (rd c1)) < length (inp (rd c))"
proof (cases "cmds srv (ToLower U name)")
  case None
  then show ?thesis
    using assms(2) SkipCmd_consumes [OF assms(1)] by (auto simp: perform_def)
next
  case (Some h)
  show ?thesis
  proof (cases h)
    case (Handler f)
    obtain x r' where rc: "ReadCmd (rd c) = (x, r')" by force
    have lt: "length (inp r') < length (inp (rd c))"
      using ReadCmd_consumes [OF assms(1) rc] .
    show ?thesis
      using assms(2) Some Handler rc lt
      by (auto simp: perform_def readCmd_def flush_large_def Let_def
          split: sum.splits prod.splits if_splits)
  next
    case (StreamHandler g)
    obtain x r' where rc: "StreamCmd (rd c) = (x, r')" by force
    have lt: "length (inp r') < length (inp (rd c))"
      using StreamCmd_consumes [OF assms(1) rc] .
    show ?thesis
    proof (cases x)
      case (Inl err)
      then show ?thesis
        using assms(2) Some StreamHandler rc lt by (auto simp: perform_def streamCmd_def)
    next
      case (Inr sc)
      define c1' where "c1' = c\<lparr>rd := r', scmd := sc\<rparr>"
      define c2 where "c2 = ServeRedeoStream g c1'"
      define c3 where "c3 = snd (flush_large M c2)"
      have s: "streamCmd c = (None, c1')"
        using rc Inr by (simp add: streamCmd_def c1'_def)
      have le2: "length (inp (rd c2)) \<le> length (inp r')"
        by (simp add: c2_def ServeRedeoStream_def c1'_def Let_def split: prod.splits)
      have r3: "rd c3 = rd c2"
        by (simp add: c3_def flush_large_keeps)
      obtain z r4 where d: "Discard (scmd c3) (rd c3) = (z, r4)" by force
      have le4: "length (inp r4) \<le> length (inp (rd c3))"
        using d skip_bulks_consumes by (simp add: Discard_def)
      have "rd c1 = r4"
        using assms(2) Some StreamHandler s d
        by (auto simp: perform_def c2_def [symmetric] c3_def Let_def split: prod.splits)
      then show ?thesis
        using le4 r3 le2 lt by simp
    qed
  qed
qed

lemma serve_iter_consumes:
  assumes "serve_iter U M srv c = (Continue, srv1, c1)"
  shows "length (inp (rd c1)) < length (inp (rd c))"
proof -
  define c0 where "c0 = set_deadline srv c"
  have r0: "rd c0 = rd c"
    by (simp add: c0_def set_deadline_def)
  obtain e s2 c2 where p: "pipeline (perform U M) srv c0 = (e, s2, c2)"
    by (metis prod_cases3)
  have ok: "case e of None \<Rightarrow> True | Some err \<Rightarrow> IsProtocolError err"
    using assms p
    by (auto simp: serve_iter_def c0_def [symmetric] Let_def split: option.splits if_splits)
  have rd1: "rd c1 = rd c2"
    using assms p
    by (auto simp: serve_iter_def c0_def [symmetric] Let_def flush_or_return_def
        split: option.splits if_splits prod.splits)
  have "length (inp (rd c2)) < length (inp (rd c0))"
  proof (cases "PeekCmd (rd c0)")
    case (Inl err)
    then have e: "e = Some err" and c2: "c2 = c0\<lparr>rd := snd (SkipCmd (rd c0))\<rparr>"
      using p by (auto simp: pipeline_def)
    have "case fst (expect_hdr (rd c0)) of Inl e \<Rightarrow> IsProtocolError e | Inr n \<Rightarrow> True"
      using ok e Inl by (intro PeekCmd_header) simp
    from SkipCmd_consumes [OF this] show ?thesis
      by (simp add: c2)
  next
    case (Inr name)
    then have pf: "perform U M srv c0 name = (e, s2, c2)"
      using p by (simp add: pipeline_def)
    have "case fst (expect_hdr (rd c0)) of Inl e \<Rightarrow> IsProtocolError e | Inr n \<Rightarrow> True"
      using Inr by (intro PeekCmd_header) simp
    from perform_consumes [OF this pf] show ?thesis .
  qed
  then show ?thesis
    by (simp add: rd1 r0)
qed

lemma serve_loop_returns:
  "length (inp (rd c)) < n \<Longrightarrow> \<exists>srv1 c1. serve_loop U n M srv c = Some (srv1, c1)"
proof (induction n arbitrary: srv c)
  case 0
  then show ?case by simp
next
  case (Suc n)
  show ?case
  proof (cases "closed c")
    case True
    then show ?thesis by simp
  next
    case False
    obtain f s1 c1 where it: "serve_iter U M srv c = (f, s1, c1)"
      by (metis prod_cases3)
    show ?thesis
    proof (cases f)
      case Return
      then show ?thesis using False it by simp
    next
      case Continue
      then have "length (inp (rd c1)) < length (inp (rd c))"
        using serve_iter_consumes it by simp
      then have "length (inp (rd c1)) < n"
        using Suc.prems by simp
      from Suc.IH [OF this] show ?thesis
        using False it Continue by simp
    qed
  qed
qed


lemma info_command_keeps:
  "history (info_command si i n) = history si \<and>
   dom (map_of (clients (info_command si i n))) = dom (map_of (clients si))"
  by (auto simp: info_command_def update_conv' split: option.splits)

lemma perform_keeps_registry:
  assumes "perform U M srv c name = (e, srv1, c1)"
  shows "history (info srv1) = history (info srv) \<and>
         dom (map_of (clients (info srv1))) = dom (map_of (clients (info srv)))"
proof (cases "cmds srv (ToLower U name)")
  case None
  then show ?thesis using assms by (auto simp: perform_def)
next
  case (Some h)
  have "srv1 = srv\<lparr>info := info_command (info srv) (client_id c) (ToLower U name)\<rparr>"
    using assms Some
    by (cases h) (auto simp: perform_def Let_def split: prod.splits option.splits)
  then show ?thesis
    by (simp add: info_command_keeps)
qed

lemma serve_iter_keeps_registry:
  "history (info (fst (snd (serve_iter U M srv c)))) = history (info srv) \<and>
   dom (map_of (clients (info (fst (snd (serve_iter U M srv c))))))
     = dom (map_of (clients (info srv)))"
proof -
  define c0 where "c0 = set_deadline srv c"
  obtain e s2 c2 where p: "pipeline (perform U M) srv c0 = (e, s2, c2)"
    by (metis prod_cases3)
  have keep: "history (info s2) = history (info srv) \<and>
              dom (map_of (clients (info s2))) = dom (map_of (clients (info srv)))"
  proof (cases "PeekCmd (rd c0)")
    case (Inl err)
    then show ?thesis using p by (auto simp: pipeline_def)
  next
    case (Inr name)
    then have "perform U M srv c0 name = (e, s2, c2)"
      using p by (simp add: pipeline_def)
    from perform_keeps_registry [OF this] show ?thesis .
  qed
  have "fst (snd (serve_iter U M srv c)) = s2"
    using p by (auto simp: serve_iter_def c0_def [symmetric] Let_def flush_or_return_def
        split: option.splits prod.splits)
  then show ?thesis
    using keep by simp
qed

lemma serve_loop_keeps_registry:
  "serve_loop U n M srv c = Some (srv1, c1) \<Longrightarrow>
   history (info srv1) = history (info srv) \<and>
   dom (map_of (clients (info srv1))) = dom (map_of (clients (info srv)))"
proof (induction n arbitrary: srv c)
  case 0
  then show ?case by (simp split: if_splits)
next
  case (Suc n)
  show ?case
  proof (cases "closed c")
    case True
    then show ?thesis using Suc.prems by simp
  next
    case False
    obtain f s2 c2 where it: "serve_iter U M srv c = (f, s2, c2)"
      by (metis prod_cases3)
    have k: "history (info s2) = history (info srv) \<and>
             dom (map_of (clients (info s2))) = dom (map_of (clients (info srv)))"
      using serve_iter_keeps_registry [of U M srv c] it by simp
    show ?thesis
    proof (cases f)
      case Return
      then show ?thesis using Suc.prems False it k by simp
    next
      case Continue
      then have "serve_loop U n M s2 c2 = Some (srv1, c1)"
        using Suc.prems False it by simp
      from Suc.IH [OF this] k show ?thesis by simp
    qed
  qed
qed

lemma deregister_info:
  "info (snd (deregister srv i)) = info_deregister (info srv) i"
  by (simp add: deregister_def Let_def split: option.splits)

text \<open>
  Claim C3. \<open>serveClient\<close> returns for every session whose input comes to an end
  (within one iteration more than the input has tokens), and whenever it returns, by whichever path the loop has ended,
  it has called register once and deregister once for the session's id, in this order, the
  record of the id is gone from the registry and the connection is closed. The record is in
  the registry from the registration on, when the loop ends included: no iteration of a
  loop adds or removes a record, or registers or deregisters.
\<close>

theorem serveClient_registers_once:
  "(\<exists>p srv' c'. serveClient U (Suc (length (inp (rd c)))) M srv c = Some (p, srv', c')) \<and>
   (\<forall>n p srv' c'. serveClient U n M srv c = Some (p, srv', c') \<longrightarrow>
      history (info srv')
        = history (info srv) @ [Registered (client_id c), Deregistered (client_id c)] \<and>
      client_id c \<notin> dom (map_of (clients (info srv'))) \<and>
      cn_closed c' \<and>
      (\<exists>srv1 c1. serve_loop U n M (register srv c) c = Some (srv1, c1) \<and>
         client_id c \<in> dom (map_of (clients (info srv1))))) \<and>
   client_id c \<in> dom (map_of (clients (info (register srv c)))) \<and>
   (\<forall>s x. history (info (fst (snd (serve_iter U M s x)))) = history (info s) \<and>
          dom (map_of (clients (info (fst (snd (serve_iter U M s x))))))
            = dom (map_of (clients (info s))))"
proof -
  have reg: "client_id c \<in> dom (map_of (clients (info (register srv c))))"
    by (simp add: register_def info_register_def update_conv')
  have hreg: "history (info (register srv c)) = history (info srv) @ [Registered (client_id c)]"
    by (simp add: register_def info_register_def)
  have returns: "\<exists>p srv' c'. serveClient U (Suc (length (inp (rd c)))) M srv c = Some (p, srv', c')"
  proof -
    obtain srv1 c1 where
      "serve_loop U (Suc (length (inp (rd c)))) M (register srv c) c = Some (srv1, c1)"
      using serve_loop_returns [of c "Suc (length (inp (rd c)))" U M "register srv c"] by auto
    then show ?thesis
      by (simp add: serveClient_def split: prod.splits)
  qed
  have once: "history (info srv')
        = history (info srv) @ [Registered (client_id c), Deregistered (client_id c)] \<and>
      client_id c \<notin> dom (map_of (clients (info srv'))) \<and>
      cn_closed c' \<and>
      (\<exists>srv1 c1. serve_loop U n M (register srv c) c = Some (srv1, c1) \<and>
         client_id c \<in> dom (map_of (clients (info srv1))))"
    if sc: "serveClient U n M srv c = Some (p, srv', c')" for n p srv' c'
  proof -
    obtain srv1 c1 where loop: "serve_loop U n M (register srv c) c = Some (srv1, c1)"
      using sc by (auto simp: serveClient_def split: option.splits)
    have k: "history (info srv1) = history (info (register srv c))"
            "dom (map_of (clients (info srv1))) = dom (map_of (clients (info (register srv c))))"
      using serve_loop_keeps_registry [OF loop] by simp_all
    have srv': "srv' = snd (deregister srv1 (client_id c))" and c': "c' = release c1"
      using sc loop by (auto simp: serveClient_def split: prod.splits)
    have i: "info srv' = info_deregister (info srv1) (client_id c)"
      by (simp add: srv' deregister_info)
    show ?thesis
      using loop k reg hreg
      by (simp add: i info_deregister_def delete_conv' c' release_def)
  qed
  show ?thesis
    using returns once reg serve_iter_keeps_registry by blast
qed


theorem serveClient_registers_once_witness:
  "\<exists>p srv' c'.
     serveClient latin1_lower (Suc (length [Hdr 1, Bulk ''PING''])) 64 sample_server
       (sample_client 1 [Hdr 1, Bulk ''PING'']) = Some (p, srv', c') \<and>
     history (info srv') = [Registered 1, Deregistered 1] \<and>
     1 \<notin> dom (map_of (clients (info srv'))) \<and> cn_closed c'"
proof -
  define c where "c = sample_client 1 [Hdr 1, Bulk ''PING'']"
  have i: "inp (rd c) = [Hdr 1, Bulk ''PING'']" and cid: "client_id c = 1"
    by (simp_all add: c_def sample_defs)
  have h: "history (info sample_server) = []"
    by (simp add: sample_defs)
  note inst = serveClient_registers_once [where c = c and M = 64 and srv = sample_server and U = latin1_lower]
  obtain p srv' c' where
    sc: "serveClient latin1_lower (Suc (length (inp (rd c)))) 64 sample_server c = Some (p, srv', c')"
    using inst by blast
  have "history (info srv')
          = history (info sample_server) @ [Registered (client_id c), Deregistered (client_id c)] \<and>
        client_id c \<notin> dom (map_of (clients (info srv'))) \<and> cn_closed c'"
    using inst sc by blast
  then show ?thesis
    using sc unfolding c_def [symmetric] by (simp add: i cid h)
qed

section \<open>The accept loop returns on the first failure of Accept\<close>

lemma Serve_accepted:
  "Serve srv (map Inr cns @ lis) spawned = Serve srv lis (spawned @ map (set_keepalive srv) cns)"
  by (induction cns arbitrary: spawned) simp_all

lemma Serve_Some:
  "Serve srv lis spawned = Some (err, ws) \<Longrightarrow>
   \<exists>cns rest. lis = map Inr cns @ Inl err # rest \<and> ws = spawned @ map (set_keepalive srv) cns"
proof (induction srv lis spawned rule: Serve.induct)
  case (1 srv spawned)
  then show ?case by simp
next
  case (2 srv e lis spawned)
  then have "Inl e # lis = map Inr ([] :: conn list) @ Inl err # lis \<and>
             ws = spawned @ map (set_keepalive srv) []"
    by simp
  then show ?case by blast
next
  case (3 srv cn lis spawned)
  then obtain cns rest where
    "lis = map Inr cns @ Inl err # rest"
    "ws = (spawned @ [set_keepalive srv cn]) @ map (set_keepalive srv) cns"
    by auto
  then have "Inr cn # lis = map Inr (cn # cns) @ Inl err # rest \<and>
             ws = spawned @ map (set_keepalive srv) (cn # cns)"
    by simp
  then show ?case by blast
qed

text \<open>
  Claim C8. \<open>Serve\<close> returns exactly when an \<open>Accept\<close> fails, and then it returns the
  error of that \<open>Accept\<close>: every connection accepted before has been handed to a worker
  of its own, in the order of acceptance, and the loop has gone on accepting. As long as
  \<open>Accept\<close> succeeds \<open>Serve\<close> does not return, whatever the connections deliver: what
  happens on a connection is no input of the loop.
\<close>

theorem Serve_returns_on_accept_error:
  "(Serve srv lis [] = Some (err, ws)) =
     (\<exists>cns rest. lis = map Inr cns @ Inl err # rest \<and> ws = map (set_keepalive srv) cns) \<and>
   Serve srv (map Inr cns) [] = None \<and>
   Serve srv (map Inr cns @ Inl err # rest) [] = Some (err, map (set_keepalive srv) cns)"
proof -
  have a: "Serve srv (map Inr cns' @ Inl err' # rest') [] = Some (err', map (set_keepalive srv) cns')"
    for cns' err' rest'
    by (simp add: Serve_accepted)
  have b: "Serve srv (map Inr cns) [] = None"
    using Serve_accepted [of srv cns "[]" "[]"] by simp
  have c: "\<exists>cns rest. lis = map Inr cns @ Inl err # rest \<and> ws = map (set_keepalive srv) cns"
    if "Serve srv lis [] = Some (err, ws)"
    using Serve_Some [OF that] by simp
  have "(Serve srv lis [] = Some (err, ws)) =
     (\<exists>cns rest. lis = map Inr cns @ Inl err # rest \<and> ws = map (set_keepalive srv) cns)"
    using a c by auto
  then show ?thesis
    using a b by simp
qed

section \<open>The drain\<close>

text \<open>
  With no client registered \<open>Release\<close> does not wait: its three steps can be taken one
  after the other, and the barrier is nil again.
\<close>

lemma Release_no_clients:
  "clients (info (the_server s)) = [] \<Longrightarrow> rel s = Idle \<Longrightarrow> \<not> panicked s \<Longrightarrow>
   run U M [RelSnapshot, RelInstall, RelWait] s
     = Some (s\<lparr>the_server := (the_server s)\<lparr>released := None\<rparr>, rel := Finished\<rparr>)"
  by (simp add: clients_All_def)

text \<open>
  Claim C2 fails on the code. Session 1 is registered when \<open>Release\<close> takes its
  snapshot. \<open>Release\<close> installs the barrier, counts session 1, closes it and waits. A
  second session registers after the snapshot and ends at once, its peer gone: its
  \<open>deregister\<close> finds the barrier installed and signals it. \<open>Wait\<close> returns and
  \<open>Release\<close> with it, while session 1 is still registered. The second schedule is the
  run the claim describes, session 1 deregistering before \<open>Release\<close> returns; the
  last two show that \<open>Release\<close> is blocked in \<open>Wait\<close>, the counter at 1, while
  nothing has signalled the barrier.
\<close>

theorem Release_returns_before_deregistration:
  "map_option drain_state
     (run latin1_lower 64 [RelSnapshot, RelInstall, RelClose, Start (sample_client 2 []), Step 2, RelWait]
        sample_system)
   = Some (Finished, [1], None, False) \<and>
   map_option drain_state
     (run latin1_lower 64 [RelSnapshot, RelInstall, RelClose, Step 1, RelWait] sample_system)
   = Some (Finished, [], None, False) \<and>
   map_option drain_state
     (run latin1_lower 64 [RelSnapshot, RelInstall, RelClose] sample_system)
   = Some (Closing [], [1], Some 1, False) \<and>
   run latin1_lower 64 [RelSnapshot, RelInstall, RelClose, RelWait] sample_system = None"
  by (simp add: sample_system_def session_exit_def drain_state_def register_def
      info_register_def clients_All_def nil_Client_def Close_def deregister_def
      info_deregister_def reader_defs writer_defs session_defs sample_defs Let_def)

end
